theory Spec2Isabelle
  imports Main
begin

section \<open>Board cells and their class lists\<close>

text \<open>
  A board button is a DOM element. The game logic reads and writes two things on it: the
  number shown in the cell (\<open>innerHTML\<close>, compared numerically by \<open>==\<close> and by
  \<open>parseInt(_, 10)\<close>) and its \<open>classList\<close>, an ordered collection of distinct tokens.
\<close>

record button =
  innerHTML :: int
  classList :: "string list"

definition contains :: "string \<Rightarrow> button \<Rightarrow> bool" where
  "contains c b = (c \<in> set (classList b))"

definition add :: "string \<Rightarrow> button \<Rightarrow> button" where
  "add c b = (if c \<in> set (classList b) then b else b\<lparr>classList := classList b @ [c]\<rparr>)"

definition remove :: "string \<Rightarrow> button \<Rightarrow> button" where
  "remove c b = b\<lparr>classList := removeAll c (classList b)\<rparr>"

text \<open>
  \<open>buttons[i]\<close> in JavaScript is \<open>undefined\<close> for an index outside the array.
\<close>

definition button_at :: "button list \<Rightarrow> int \<Rightarrow> button option" where
  "button_at buttons i =
     (if 0 \<le> i \<and> i < int (length buttons) then Some (buttons ! nat i) else None)"

section \<open>Numbers in template literals\<close>

definition digit_char :: "nat \<Rightarrow> char" where
  "digit_char d = ''0123456789'' ! d"

function nat_to_string :: "nat \<Rightarrow> string" where
  "nat_to_string n =
     (if n < 10 then [digit_char n] else nat_to_string (n div 10) @ [digit_char (n mod 10)])"
  by pat_completeness auto
termination
  by (relation "measure id") auto

declare nat_to_string.simps [simp del]

definition toString :: "int \<Rightarrow> string" where
  "toString i = (if i < 0 then CHR ''-'' # nat_to_string (nat (- i)) else nat_to_string (nat i))"

section \<open>The Player class\<close>

record controls =
  up :: string
  right :: string
  down :: string
  left :: string
  confirm :: string

record player =
  name :: string
  index :: int
  controls :: controls
  color :: string
  score :: int
  moveCount :: int
  power :: int
  powerCounter :: int
  saves :: int
  stolen :: int
  positionIndex :: int
  isReady :: bool

text \<open>
  The constructor, with its configuration already defaulted: every statistic starts at 0
  and the player is not ready.
\<close>

definition new_player :: "string \<Rightarrow> int \<Rightarrow> controls \<Rightarrow> string \<Rightarrow> int \<Rightarrow> player" where
  "new_player nm idx ctl col startPosition =
     \<lparr>name = nm, index = idx, controls = ctl, color = col,
      score = 0, moveCount = 0, power = 0, powerCounter = 0, saves = 0, stolen = 0,
      positionIndex = startPosition, isReady = False\<rparr>"

definition getFoundClass :: "'a player_scheme \<Rightarrow> string" where
  "getFoundClass p = ''founded-by-player'' @ toString (index p)"

definition getPositionClass :: "'a player_scheme \<Rightarrow> string" where
  "getPositionClass p = ''position-of-player'' @ toString (index p)"

definition getStolenClass :: "'a player_scheme \<Rightarrow> string" where
  "getStolenClass p = ''stolen'' @ toString (index p)"

subsection \<open>move\<close>

text \<open>
  The \<open>forEach\<close> that clears the previous position: every button carrying the position
  class loses it, and the flag records whether any did.
\<close>

fun clear_position :: "string \<Rightarrow> button list \<Rightarrow> bool \<Rightarrow> button list \<times> bool" where
  "clear_position c [] foundPreviousPosition = ([], foundPreviousPosition)"
| "clear_position c (b # bs) foundPreviousPosition =
     (if contains c b
      then (let (bs', f) = clear_position c bs True in (remove c b # bs', f))
      else (let (bs', f) = clear_position c bs foundPreviousPosition in (b # bs', f)))"

text \<open>The chain of boundary adjustments, branch for branch, in the source's order.\<close>

definition adjust_boundaries :: "int \<Rightarrow> int \<Rightarrow> int" where
  "adjust_boundaries pos direction =
     (if pos = 110 \<or> pos = 101 then 1
      else if pos = 101 \<and> direction = 10 then 2
      else if 101 < pos \<and> pos < 110 then pos - 99
      else if pos < 1 then pos + 99
      else if pos = - 9 then 100
      else pos)"

text \<open>The safety check: two consecutive \<open>if\<close> statements.\<close>

definition keep_in_bounds :: "int \<Rightarrow> int" where
  "keep_in_bounds pos =
     (let pos1 = (if pos < 1 then 1 else pos) in if pos1 > 100 then 100 else pos1)"

text \<open>
  \<open>move(direction, buttons)\<close> returns the new position; the model returns with it the
  player and the buttons as the call leaves them. \<open>None\<close> is an \<open>undefined\<close> argument.
\<close>

definition move ::
  "'a player_scheme \<Rightarrow> int \<Rightarrow> button list option \<Rightarrow>
   int \<times> 'a player_scheme \<times> button list option" where
  "move p direction buttons =
     (case buttons of
        None \<Rightarrow> (positionIndex p, p, None)
      | Some bs \<Rightarrow>
          if length bs = 0 then (positionIndex p, p, Some bs)
          else
            let (bs1, foundPreviousPosition) = clear_position (getPositionClass p) bs False;
                p1 = (if foundPreviousPosition then p\<lparr>moveCount := moveCount p + 1\<rparr> else p);
                pos = keep_in_bounds (adjust_boundaries (positionIndex p1 + direction) direction);
                p2 = p1\<lparr>positionIndex := pos\<rparr>;
                bs2 = (case button_at bs1 (pos - 1) of
                         Some b \<Rightarrow> bs1[nat (pos - 1) := add (getPositionClass p2) b]
                       | None \<Rightarrow> bs1)
            in (pos, p2, Some bs2))"

text \<open>A sequence of key presses on one board.\<close>

fun moves ::
  "'a player_scheme \<Rightarrow> int list \<Rightarrow> button list option \<Rightarrow>
   'a player_scheme \<times> button list option" where
  "moves p [] buttons = (p, buttons)"
| "moves p (d # ds) buttons = (case move p d buttons of (_, p', buttons') \<Rightarrow> moves p' ds buttons')"

subsection \<open>checkTarget\<close>

text \<open>
  \<open>checkTarget\<close> returns \<open>true\<close>, \<open>false\<close> or one of two strings.
\<close>

datatype check_result = CheckFalse | CheckTrue | StolenRecovered | Saved

definition otherPlayerIndex :: "'a player_scheme \<Rightarrow> int" where
  "otherPlayerIndex p = (if index p = 1 then 2 else 1)"

definition checkTarget ::
  "player \<Rightarrow> int \<Rightarrow> button list \<Rightarrow> int \<Rightarrow> check_result \<times> player \<times> button list" where
  "checkTarget p position buttons target =
     (case button_at buttons (position - 1) of
        None \<Rightarrow> (CheckFalse, p, buttons)
      | Some b \<Rightarrow>
          if innerHTML b = target
          then (CheckTrue, p, buttons[nat (position - 1) := add (getFoundClass p) b])
          else if contains (''stolen'' @ toString (index p)) b
          then (StolenRecovered,
                p\<lparr>stolen := stolen p + 1, powerCounter := 0\<rparr>,
                buttons[nat (position - 1) :=
                  add (getFoundClass p) (remove (''stolen'' @ toString (index p)) b)])
          else if contains (''stolen'' @ toString (otherPlayerIndex p)) b
          then (Saved,
                p\<lparr>saves := saves p + 1, powerCounter := 0\<rparr>,
                buttons[nat (position - 1) :=
                  add (getFoundClass p) (remove (''stolen'' @ toString (otherPlayerIndex p)) b)])
          else (CheckFalse, p, buttons))"

subsection \<open>incrementPower\<close>

text \<open>
  \<open>opponentFoundElements\<close> is a list of board elements; an element is named by its index
  in the board's button array. \<open>rnd\<close> is the injected random draw: for a list of length
  \<open>n > 0\<close> the expression \<open>Math.floor(Math.random() * n)\<close> takes exactly the values
  \<open>0 .. n - 1\<close>, as \<open>rnd mod n\<close> does. The acting player and the opponent are two
  distinct objects. The result is the returned boolean, then the acting player, the opponent
  and the board as the call leaves them.
\<close>

definition incrementPower ::
  "player \<Rightarrow> player \<Rightarrow> nat list \<Rightarrow> nat \<Rightarrow> button list \<Rightarrow> bool \<times> player \<times> player \<times> button list" where
  "incrementPower this opponent opponentFoundElements rnd buttons =
     (let opponent1 = opponent\<lparr>powerCounter := 0\<rparr>;
          this1 = this\<lparr>powerCounter := powerCounter this + 1\<rparr>
      in if powerCounter this1 = 3
         then
           let this2 = this1\<lparr>power := power this1 + 1\<rparr>
           in if length opponentFoundElements > 0
              then
                let randomIndex = rnd mod length opponentFoundElements;
                    elementToSteal = opponentFoundElements ! randomIndex
                in (True, this2, opponent1,
                    (if elementToSteal < length buttons
                     then buttons[elementToSteal :=
                            add (getStolenClass this2)
                              (remove (getFoundClass opponent1) (buttons ! elementToSteal))]
                     else buttons))
              else (False, this2, opponent1, buttons)
         else (False, this1, opponent1, buttons))"

text \<open>
  The cells a player has found: the indices of the buttons carrying the player's found class.
\<close>

definition found_cells :: "'a player_scheme \<Rightarrow> button list \<Rightarrow> nat list" where
  "found_cells p buttons =
     filter (\<lambda>i. contains (getFoundClass p) (buttons ! i)) [0..<length buttons]"

subsection \<open>Two players on one board\<close>

text \<open>
  The operations that touch \<open>powerCounter\<close>, applied in any order by either of two players
  to a shared board. The flag of an action tells whether the first player acts.
\<close>

record duel =
  first :: player
  second :: player
  cells :: "button list"

datatype action =
  IncrementPower bool "nat list" nat
| CheckTarget bool int int

fun step :: "duel \<Rightarrow> action \<Rightarrow> duel" where
  "step s (IncrementPower who els rnd) =
     (if who
      then (case incrementPower (first s) (second s) els rnd (cells s) of
              (_, a, b, bs) \<Rightarrow> s\<lparr>first := a, second := b, cells := bs\<rparr>)
      else (case incrementPower (second s) (first s) els rnd (cells s) of
              (_, a, b, bs) \<Rightarrow> s\<lparr>first := b, second := a, cells := bs\<rparr>))"
| "step s (CheckTarget who position target) =
     (if who
      then (case checkTarget (first s) position (cells s) target of
              (_, a, bs) \<Rightarrow> s\<lparr>first := a, cells := bs\<rparr>)
      else (case checkTarget (second s) position (cells s) target of
              (_, a, bs) \<Rightarrow> s\<lparr>second := a, cells := bs\<rparr>))"

fun run :: "duel \<Rightarrow> action list \<Rightarrow> duel" where
  "run s [] = s"
| "run s (a # as) = run (step s a) as"

section \<open>The multiplayer client\<close>

text \<open>
  Modelled from the spec: the class \<open>MultiplayerPlayer\<close> is not among the sources. The
  client builds it from the configuration of a \<open>Player\<close> plus \<open>id\<close> and
  \<open>isCurrentPlayer\<close> and uses it through \<open>Player\<close>'s fields and methods; the
  spec's Player record carries the same fields and an \<open>id\<close>.
\<close>

record mplayer = player +
  player_id :: string
  isCurrentPlayer :: bool

text \<open>
  Modelled from the spec: \<open>MultiplayerPlayer.updatePosition\<close> is not among the sources.
  On a server snapshot the server's position replaces the local one, and the current-position
  marker is toggled from the old cell to the new one.
\<close>

definition updatePosition :: "mplayer \<Rightarrow> int \<Rightarrow> button list \<Rightarrow> mplayer \<times> button list" where
  "updatePosition p pos bs =
     (let bs1 = fst (clear_position (getPositionClass p) bs False);
          p1 = p\<lparr>positionIndex := pos\<rparr>
      in (p1, (case button_at bs1 (pos - 1) of
                 Some b \<Rightarrow> bs1[nat (pos - 1) := add (getPositionClass p1) b]
               | None \<Rightarrow> bs1)))"

text \<open>
  A room snapshot as the server broadcasts it: \<open>room.gameState.currentTarget\<close> and
  \<open>room.players\<close>, each player with \<open>id\<close>, \<open>name\<close>, \<open>position\<close> and
  \<open>score\<close>.
\<close>

record room_player =
  s_id :: string
  s_name :: string
  s_position :: int
  s_score :: int

record room =
  room_currentTarget :: int
  room_players :: "room_player list"

text \<open>\<open>lastMove\<close>: its \<open>type\<close>, \<open>targetFound\<close> and \<open>playerId\<close>.\<close>

record last_move =
  move_type :: string
  targetFound :: bool
  move_playerId :: string

text \<open>
  What the client does to the presentation layer and to the socket is kept as a log of calls,
  in the order they are made. \<open>AddFoundAnimation\<close> carries the player's id and the index
  of the button.
\<close>

datatype effect =
  UpdateTarget int
| ShowGameOver "room_player list"
| AddFoundAnimation string nat
| EmitPlayerMove "string option" "string option" int

text \<open>
  The state of \<open>MultiplayerGame\<close>. \<open>board_buttons\<close> is what
  \<open>this.board.getAllButtons()\<close> returns; \<open>currentPlayer\<close> is a reference to one of
  \<open>players\<close>, kept as its index; \<open>socket\<close> tells whether \<open>this.socket\<close> is set.
\<close>

record multiplayer_game =
  players :: "mplayer list"
  currentPlayer :: "nat option"
  currentTarget :: int
  gameRunning :: bool
  board_buttons :: "button list"
  socket :: bool
  socketConnected :: bool
  playerId :: "string option"
  roomCode :: "string option"
  effects :: "effect list"

text \<open>\<open>Array.prototype.find\<close>, returning the index of the first match.\<close>

fun find_index :: "('a \<Rightarrow> bool) \<Rightarrow> 'a list \<Rightarrow> nat option" where
  "find_index P [] = None"
| "find_index P (x # xs) = (if P x then Some 0 else map_option Suc (find_index P xs))"

subsection \<open>movePlayer\<close>

text \<open>
  The move is previewed locally with \<open>Player.move\<close> and the resulting position is
  emitted as \<open>player_move\<close> with the room code and the player id. An index outside
  \<open>players\<close> stands for no reference at all.
\<close>

definition movePlayer :: "multiplayer_game \<Rightarrow> int \<Rightarrow> multiplayer_game" where
  "movePlayer g direction =
     (case currentPlayer g of
        None \<Rightarrow> g
      | Some i \<Rightarrow>
          if i < length (players g)
          then
            (case move (players g ! i) direction (Some (board_buttons g)) of
               (_, player, buttons') \<Rightarrow>
                 let g1 = g\<lparr>players := (players g)[i := player],
                            board_buttons :=
                              (case buttons' of Some bs \<Rightarrow> bs | None \<Rightarrow> board_buttons g)\<rparr>
                 in if socket g1 \<and> socketConnected g1
                    then g1\<lparr>effects := effects g1 @
                           [EmitPlayerMove (roomCode g1) (playerId g1) (positionIndex player)]\<rparr>
                    else g1)
          else g)"

subsection \<open>updateGameState\<close>

text \<open>The first block: the target is taken from the room when it differs.\<close>

definition update_target :: "multiplayer_game \<Rightarrow> room \<Rightarrow> multiplayer_game" where
  "update_target g room =
     (if room_currentTarget room \<noteq> currentTarget g
      then g\<lparr>currentTarget := room_currentTarget room,
             effects := effects g @ [UpdateTarget (room_currentTarget room)]\<rparr>
      else g)"

text \<open>The body of the loop over \<open>room.players\<close>.\<close>

definition sync_player :: "multiplayer_game \<Rightarrow> room_player \<Rightarrow> multiplayer_game" where
  "sync_player g serverPlayer =
     (case find_index (\<lambda>p. player_id p = s_id serverPlayer) (players g) of
        None \<Rightarrow> g
      | Some i \<Rightarrow>
          let player = players g ! i;
              (player1, bs1) =
                (if positionIndex player \<noteq> s_position serverPlayer
                 then updatePosition player (s_position serverPlayer) (board_buttons g)
                 else (player, board_buttons g));
              player2 = (if score player1 \<noteq> s_score serverPlayer
                         then player1\<lparr>score := s_score serverPlayer\<rparr> else player1)
          in g\<lparr>players := (players g)[i := player2], board_buttons := bs1\<rparr>)"

text \<open>The target-found block, guarded by the type of the last move.\<close>

definition handle_target_found :: "multiplayer_game \<Rightarrow> last_move option \<Rightarrow> multiplayer_game" where
  "handle_target_found g lastMove =
     (case lastMove of
        None \<Rightarrow> g
      | Some lm \<Rightarrow>
          if targetFound lm \<and> move_type lm = ''confirm''
          then
            (case find_index (\<lambda>p. player_id p = move_playerId lm) (players g) of
               None \<Rightarrow> g
             | Some i \<Rightarrow>
                 let player = players g ! i
                 in (case find_index (\<lambda>btn. innerHTML btn = currentTarget g - 1) (board_buttons g) of
                       None \<Rightarrow> g
                     | Some j \<Rightarrow>
                         let g1 = g\<lparr>board_buttons := (board_buttons g)
                                     [j := add (getFoundClass player) (board_buttons g ! j)]\<rparr>
                         in if player_id player = move_playerId lm
                            then g1\<lparr>effects := effects g1 @ [AddFoundAnimation (player_id player) j]\<rparr>
                            else g1))
          else g)"

text \<open>The two end-of-game checks, in the source's order.\<close>

definition check_game_over :: "multiplayer_game \<Rightarrow> room \<Rightarrow> multiplayer_game" where
  "check_game_over g room =
     (let g1 = (if room_currentTarget room > 100
                then g\<lparr>gameRunning := False, effects := effects g @ [ShowGameOver (room_players room)]\<rparr>
                else g);
          playerWithHighScore = List.find (\<lambda>player. s_score player > 50) (room_players room)
      in if playerWithHighScore \<noteq> None \<and> gameRunning g1
         then g1\<lparr>gameRunning := False, effects := effects g1 @ [ShowGameOver (room_players room)]\<rparr>
         else g1)"

text \<open>
  \<open>updateGameState(room, lastMove)\<close>: the four blocks in sequence. The refresh of the
  score display in the document is presentation only and is not part of the state.
\<close>

definition updateGameState :: "multiplayer_game \<Rightarrow> room \<Rightarrow> last_move option \<Rightarrow> multiplayer_game" where
  "updateGameState g room lastMove =
     (let g1 = update_target g room;
          g2 = foldl sync_player g1 (room_players room);
          g3 = handle_target_found g2 lastMove
      in check_game_over g3 room)"

text \<open>The \<open>game_update\<close> events of a session, handled one after the other.\<close>

fun updateGameStates ::
  "multiplayer_game \<Rightarrow> (room \<times> last_move option) list \<Rightarrow> multiplayer_game" where
  "updateGameStates g [] = g"
| "updateGameStates g ((room, lastMove) # later) =
     updateGameStates (updateGameState g room lastMove) later"

subsection \<open>Reading the log and the board\<close>

fun is_game_over :: "effect \<Rightarrow> bool" where
  "is_game_over (ShowGameOver _) = True"
| "is_game_over _ = False"

fun is_found_animation :: "effect \<Rightarrow> bool" where
  "is_found_animation (AddFoundAnimation _ _) = True"
| "is_found_animation _ = False"

text \<open>The guard of the target-found block: a last move of type confirm with targetFound set.\<close>

definition confirms_target :: "last_move option \<Rightarrow> bool" where
  "confirms_target lastMove =
     (case lastMove of None \<Rightarrow> False | Some lm \<Rightarrow> targetFound lm \<and> move_type lm = ''confirm'')"

text \<open>The found markers of a cell: its classes of the form \<open>founded-by-player...\<close>.\<close>

definition is_found_class :: "string \<Rightarrow> bool" where
  "is_found_class c = (take 17 c = ''founded-by-player'')"

definition found_marks :: "button \<Rightarrow> string list" where
  "found_marks b = filter is_found_class (classList b)"

section \<open>The relay's move handler\<close>

text \<open>
  The position arithmetic of \<open>Player.move\<close>: the boundary chain followed by the safety
  check, applied to position plus direction.
\<close>

definition movement_rule :: "int \<Rightarrow> int \<Rightarrow> int" where
  "movement_rule pos direction = keep_in_bounds (adjust_boundaries (pos + direction) direction)"

definition directions :: "int list" where
  "directions = [- 10, - 1, 1, 10]"

text \<open>
  Modelled from the spec: the relay's handler of \<open>player_move\<close> is not among the sources;
  only the client that emits the event is. The spec gives it as
  \<open>applyMove(code, playerId, targetPosition)\<close>: it recomputes the player's position with
  the movement rule above from the position the room holds, does not trust the submitted
  position, and broadcasts the room with a move delta; an input that fails validation does
  not mutate the room and is not broadcast. The submitted position therefore only selects
  the intended direction: the first one whose rule-step from the room's position gives it.
  The model starts from the room that the room code names in the registry; the result is
  the room afterwards and the delta broadcast, if any.
\<close>

definition applyMove :: "room \<Rightarrow> string \<Rightarrow> int \<Rightarrow> room \<times> last_move option" where
  "applyMove room pid targetPosition =
     (case find_index (\<lambda>player. s_id player = pid) (room_players room) of
        None \<Rightarrow> (room, None)
      | Some i \<Rightarrow>
          let player = room_players room ! i
          in (case List.find (\<lambda>d. movement_rule (s_position player) d = targetPosition) directions of
                None \<Rightarrow> (room, None)
              | Some d \<Rightarrow>
                  (room\<lparr>room_players := (room_players room)
                          [i := player\<lparr>s_position := movement_rule (s_position player) d\<rparr>]\<rparr>,
                   Some \<lparr>move_type = ''move'', targetFound = False, move_playerId = pid\<rparr>)))"

section \<open>Sample data\<close>

definition default_controls :: controls where
  "default_controls =
     \<lparr>up = ''ArrowUp'', right = ''ArrowRight'', down = ''ArrowDown'', left = ''ArrowLeft'',
      confirm = ''Enter''\<rparr>"

definition sample_player :: "int \<Rightarrow> int \<Rightarrow> player" where
  "sample_player idx pos = new_player (''Player '' @ toString idx) idx default_controls ''#008000'' pos"

text \<open>A board of 100 unmarked cells, cell \<open>n\<close> showing the number \<open>n\<close>.\<close>

definition sample_board :: "button list" where
  "sample_board = map (\<lambda>n. \<lparr>innerHTML = int n, classList = []\<rparr>) [1..<101]"




text \<open>
  A running two-player game on the sample board with target 1, a room snapshot with a given
  target and score of the first player, and three last moves: a confirm of the first player
  that found the target, a confirm of the second that did not, and a move of the first that
  carries \<open>targetFound\<close> all the same.
\<close>

definition sample_mplayer :: "string \<Rightarrow> int \<Rightarrow> int \<Rightarrow> mplayer" where
  "sample_mplayer pid idx pos =
     player.extend (sample_player idx pos) \<lparr>player_id = pid, isCurrentPlayer = (idx = 1)\<rparr>"

definition sample_game :: multiplayer_game where
  "sample_game =
     \<lparr>players = [sample_mplayer ''socket-a'' 1 1, sample_mplayer ''socket-b'' 2 100],
      currentPlayer = Some 0, currentTarget = 1, gameRunning = True,
      board_buttons = sample_board, socket = True, socketConnected = True,
      playerId = Some ''socket-a'', roomCode = Some ''ROOM01'', effects = []\<rparr>"

definition sample_room :: "int \<Rightarrow> int \<Rightarrow> room" where
  "sample_room target score_a =
     \<lparr>room_currentTarget = target,
      room_players = [\<lparr>s_id = ''socket-a'', s_name = ''Player 1'', s_position = 1, s_score = score_a\<rparr>,
                      \<lparr>s_id = ''socket-b'', s_name = ''Player 2'', s_position = 100, s_score = 0\<rparr>]\<rparr>"

definition confirm_found :: last_move where
  "confirm_found = \<lparr>move_type = ''confirm'', targetFound = True, move_playerId = ''socket-a''\<rparr>"

definition confirm_missed :: last_move where
  "confirm_missed = \<lparr>move_type = ''confirm'', targetFound = False, move_playerId = ''socket-b''\<rparr>"

definition move_delta :: last_move where
  "move_delta = \<lparr>move_type = ''move'', targetFound = True, move_playerId = ''socket-a''\<rparr>"

section \<open>Properties of move\<close>

lemma clear_position_length: "length (fst (clear_position c bs f)) = length bs"
  by (induction bs arbitrary: f) (simp_all add: case_prod_unfold Let_def)

lemma keep_in_bounds_range: "1 \<le> keep_in_bounds pos \<and> keep_in_bounds pos \<le> 100"
  by (simp add: keep_in_bounds_def Let_def)

lemma adjust_inside:
  "1 \<le> pos \<Longrightarrow> pos \<le> 100 \<Longrightarrow> keep_in_bounds (adjust_boundaries pos d) = pos"
  by (simp add: keep_in_bounds_def adjust_boundaries_def)

lemma move_result:
  assumes "bs \<noteq> []"
  shows "fst (move p d (Some bs)) = keep_in_bounds (adjust_boundaries (positionIndex p + d) d)"
  using assms by (auto simp: move_def Let_def split: prod.splits option.splits)

lemma move_stored: "positionIndex (fst (snd (move p d buttons))) = fst (move p d buttons)"
  by (auto simp: move_def Let_def split: prod.splits option.splits)

lemma move_keeps_board_size:
  "snd (snd (move p d (Some bs))) = Some bs' \<Longrightarrow> length bs' = length bs"
  using clear_position_length [of "getPositionClass p" bs False]
  by (auto simp: move_def Let_def split: prod.splits option.splits if_splits)

lemma move_board_present: "snd (snd (move p d (Some bs))) \<noteq> None"
  by (auto simp: move_def Let_def split: prod.splits option.splits if_splits)

lemma move_in_range:
  assumes "1 \<le> positionIndex p" "positionIndex p \<le> 100"
  shows "1 \<le> fst (move p d buttons) \<and> fst (move p d buttons) \<le> 100"
proof (cases buttons)
  case None
  with assms show ?thesis by (simp add: move_def)
next
  case (Some bs)
  show ?thesis
  proof (cases "bs = []")
    case True
    with Some assms show ?thesis by (simp add: move_def)
  next
    case False
    with Some keep_in_bounds_range show ?thesis by (simp add: move_result)
  qed
qed

lemma moves_in_range:
  "1 \<le> positionIndex p \<Longrightarrow> positionIndex p \<le> 100 \<Longrightarrow>
   1 \<le> positionIndex (fst (moves p ds buttons)) \<and> positionIndex (fst (moves p ds buttons)) \<le> 100"
proof (induction ds arbitrary: p buttons)
  case Nil
  then show ?case by simp
next
  case (Cons d ds)
  obtain r p' buttons' where m: "move p d buttons = (r, p', buttons')"
    by (cases "move p d buttons") auto
  from move_in_range [OF Cons.prems, of d buttons] move_stored [of p d buttons] m
  have "1 \<le> positionIndex p' \<and> positionIndex p' \<le> 100" by simp
  with Cons.IH [of p' buttons'] m show ?case by simp
qed

lemma move_right_left_steps:
  assumes "1 \<le> positionIndex p" and "positionIndex p \<le> 99"
    and "move p 1 buttons = (r1, p1, buttons1)"
    and "move p1 (- 1) buttons1 = (r2, p2, buttons2)"
  shows "r2 = positionIndex p \<and> positionIndex p2 = positionIndex p"
proof (cases buttons)
  case None
  with assms show ?thesis by (auto simp: move_def)
next
  case (Some bs)
  show ?thesis
  proof (cases "bs = []")
    case True
    with Some assms show ?thesis by (auto simp: move_def)
  next
    case False
    from assms(3) Some move_result [OF False, of p 1] assms(1,2)
    have r1: "r1 = positionIndex p + 1" by (simp add: adjust_inside)
    from assms(3) move_stored [of p 1 buttons] have p1: "positionIndex p1 = r1" by simp
    from assms(3) Some move_board_present [of p 1 bs] obtain bs1 where b1: "buttons1 = Some bs1"
      by (cases buttons1) auto
    with assms(3) Some move_keeps_board_size [of p 1 bs bs1] False have ne: "bs1 \<noteq> []" by auto
    from assms(4) b1 move_result [OF ne, of p1 "- 1"] p1 r1 assms(1,2)
    have "r2 = positionIndex p" by (simp add: adjust_inside)
    moreover from assms(4) move_stored [of p1 "- 1" buttons1] have "positionIndex p2 = r2" by simp
    ultimately show ?thesis by simp
  qed
qed

lemma sample_board_nonempty: "sample_board \<noteq> []"
  by (simp add: sample_board_def upt_rec)

lemma sample_player_position: "positionIndex (sample_player idx pos) = pos"
  by (simp add: sample_player_def new_player_def)

text \<open>
  Claim C10. Called with an undefined or an empty buttons array, \<open>move\<close> returns the
  player's current \<open>positionIndex\<close> and changes nothing: the player record, and with it
  \<open>positionIndex\<close>, \<open>moveCount\<close>, \<open>score\<close> and \<open>powerCounter\<close>, is the one passed in.
\<close>

theorem move_absent_board_noop:
  "move p direction None = (positionIndex p, p, None) \<and>
   move p direction (Some []) = (positionIndex p, p, Some [])"
  by (simp add: move_def)

text \<open>
  Claim C6. For a player whose \<open>positionIndex\<close> lies in 1..100 and a direction among
  -10, -1, +1, +10, the position \<open>move\<close> returns lies in 1..100 and is the one stored in
  \<open>positionIndex\<close>; so after any sequence of such moves the player is still on the board.
\<close>

theorem move_position_range:
  assumes "1 \<le> positionIndex p" and "positionIndex p \<le> 100"
    and "direction \<in> {- 10, - 1, 1, 10}" and "set ds \<subseteq> {- 10, - 1, 1, 10}"
  shows "1 \<le> fst (move p direction buttons) \<and> fst (move p direction buttons) \<le> 100 \<and>
         positionIndex (fst (snd (move p direction buttons))) = fst (move p direction buttons) \<and>
         1 \<le> positionIndex (fst (moves p ds buttons)) \<and>
         positionIndex (fst (moves p ds buttons)) \<le> 100"
  using move_in_range [OF assms(1,2)] moves_in_range [OF assms(1,2)] move_stored by simp

theorem move_position_range_witness:
  "1 \<le> positionIndex (sample_player 1 1) \<and> positionIndex (sample_player 1 1) \<le> 100 \<and>
   (- 10) \<in> {- 10, - 1, 1, 10 :: int} \<and> set [- 1, - 10, 10, 1] \<subseteq> {- 10, - 1, 1, 10 :: int} \<and>
   1 \<le> fst (move (sample_player 1 1) (- 10) (Some sample_board)) \<and>
   fst (move (sample_player 1 1) (- 10) (Some sample_board)) \<le> 100 \<and>
   1 \<le> positionIndex (fst (moves (sample_player 1 1) [- 1, - 10, 10, 1] (Some sample_board))) \<and>
   positionIndex (fst (moves (sample_player 1 1) [- 1, - 10, 10, 1] (Some sample_board))) \<le> 100"
proof -
  have h: "1 \<le> positionIndex (sample_player 1 1)" "positionIndex (sample_player 1 1) \<le> 100"
    by (simp_all add: sample_player_position)
  have d: "(- 10) \<in> {- 10, - 1, 1, 10 :: int}" "set [- 1, - 10, 10, 1] \<subseteq> {- 10, - 1, 1, 10 :: int}"
    by simp_all
  from move_position_range [OF h d, of "Some sample_board"] h d show ?thesis by simp
qed

text \<open>
  Claim C7. From an interior position, one from which neither step crosses a wrap boundary
  (1..99, so that the step right stays on the board), moving with direction +1 and then with
  direction -1 brings the player back: the second call returns the original position and
  stores it.
\<close>

theorem move_right_then_left:
  assumes "1 \<le> positionIndex p" and "positionIndex p \<le> 99"
  shows "(case move p 1 buttons of (r1, p1, buttons1) \<Rightarrow>
            case move p1 (- 1) buttons1 of (r2, p2, buttons2) \<Rightarrow>
              r2 = positionIndex p \<and> positionIndex p2 = positionIndex p)"
proof -
  obtain r1 p1 buttons1 where m1: "move p 1 buttons = (r1, p1, buttons1)"
    by (rule prod_cases3)
  obtain r2 p2 buttons2 where m2: "move p1 (- 1) buttons1 = (r2, p2, buttons2)"
    by (rule prod_cases3)
  from move_right_left_steps [OF assms m1 m2] m1 m2 show ?thesis by simp
qed

theorem move_right_then_left_witness:
  "1 \<le> positionIndex (sample_player 1 45) \<and> positionIndex (sample_player 1 45) \<le> 99 \<and>
   (case move (sample_player 1 45) 1 (Some sample_board) of (r1, p1, buttons1) \<Rightarrow>
      case move p1 (- 1) buttons1 of (r2, p2, buttons2) \<Rightarrow>
        r2 = 45 \<and> positionIndex p2 = 45)"
proof -
  have h: "1 \<le> positionIndex (sample_player 1 45)" "positionIndex (sample_player 1 45) \<le> 99"
    by (simp_all add: sample_player_position)
  from move_right_then_left [OF h, of "Some sample_board"] h show ?thesis
    by (simp add: sample_player_position)
qed

section \<open>Vertical wrap-around\<close>

lemma adjust_up_from_top_row:
  "2 \<le> pos \<Longrightarrow> pos \<le> 10 \<Longrightarrow> keep_in_bounds (adjust_boundaries (pos + - 10) (- 10)) = pos + 89"
  by (simp add: keep_in_bounds_def adjust_boundaries_def)

lemma adjust_down_from_bottom_row:
  "92 \<le> pos \<Longrightarrow> pos \<le> 99 \<Longrightarrow> keep_in_bounds (adjust_boundaries (pos + 10) 10) = pos - 89"
  by (simp add: keep_in_bounds_def adjust_boundaries_def)

lemma adjust_down_from_corners:
  "pos = 91 \<or> pos = 100 \<Longrightarrow> keep_in_bounds (adjust_boundaries (pos + 10) 10) = 1"
  by (auto simp add: keep_in_bounds_def adjust_boundaries_def)

text \<open>
  Claim C1, as the code has it. On a board that is present, stepping up from row 1 and down
  from row 10 wraps with an offset of 99, not 90, so the player lands one column over:
  from a position \<open>p\<close> in 2..10, \<open>move(-10)\<close> yields \<open>p + 89\<close>
  (row 10, the column to the left); from \<open>p\<close> in 92..99, \<open>move(+10)\<close>
  yields \<open>p - 89\<close> (row 1, the column to the right); from 91 and from 100,
  \<open>move(+10)\<close> yields 1.
\<close>

theorem move_vertical_wrap:
  assumes "bs \<noteq> []"
  shows "(2 \<le> positionIndex p \<and> positionIndex p \<le> 10 \<longrightarrow>
            fst (move p (- 10) (Some bs)) = positionIndex p + 89) \<and>
         (92 \<le> positionIndex p \<and> positionIndex p \<le> 99 \<longrightarrow>
            fst (move p 10 (Some bs)) = positionIndex p - 89) \<and>
         (positionIndex p = 91 \<or> positionIndex p = 100 \<longrightarrow>
            fst (move p 10 (Some bs)) = 1)"
  using adjust_up_from_top_row [of "positionIndex p"] adjust_down_from_bottom_row [of "positionIndex p"]
    adjust_down_from_corners [of "positionIndex p"]
  by (simp add: move_result [OF assms])

theorem move_vertical_wrap_witness:
  "sample_board \<noteq> [] \<and>
   (2 \<le> positionIndex (sample_player 1 5) \<and> positionIndex (sample_player 1 5) \<le> 10 \<and>
    fst (move (sample_player 1 5) (- 10) (Some sample_board)) = 94) \<and>
   (92 \<le> positionIndex (sample_player 1 95) \<and> positionIndex (sample_player 1 95) \<le> 99 \<and>
    fst (move (sample_player 1 95) 10 (Some sample_board)) = 6) \<and>
   (positionIndex (sample_player 1 91) = 91 \<and>
    fst (move (sample_player 1 91) 10 (Some sample_board)) = 1) \<and>
   (positionIndex (sample_player 1 100) = 100 \<and>
    fst (move (sample_player 1 100) 10 (Some sample_board)) = 1)"
  using move_vertical_wrap [OF sample_board_nonempty, of "sample_player 1 5"]
    move_vertical_wrap [OF sample_board_nonempty, of "sample_player 1 95"]
    move_vertical_wrap [OF sample_board_nonempty, of "sample_player 1 91"]
    move_vertical_wrap [OF sample_board_nonempty, of "sample_player 1 100"]
    sample_board_nonempty
  by (simp add: sample_player_position)

text \<open>
  The same-column wrap fails: from 5 the step up gives 94, not 95, and from 95 the step
  down gives 6, not 5.
\<close>

theorem move_vertical_wrap_counterexample:
  "fst (move (sample_player 1 5) (- 10) (Some sample_board)) \<noteq> 5 + 90 \<and>
   fst (move (sample_player 1 95) 10 (Some sample_board)) \<noteq> 95 - 90"
  by (simp add: move_result [OF sample_board_nonempty] sample_player_position
      keep_in_bounds_def adjust_boundaries_def)

section \<open>Properties of checkTarget\<close>

lemma found_class_not_stolen_class: "''founded-by-player'' @ x \<noteq> ''stolen'' @ y"
  by simp












section \<open>Properties of incrementPower\<close>

text \<open>
  Claim C8. When \<open>incrementPower\<close> raises the acting player's counter to 3 and the list
  of the opponent's found elements is empty, it returns \<open>false\<close> and steals nothing: the
  board, and so the opponent's found cells, are unchanged, and the only mutations are the
  opponent's counter reset and the acting player's counter and power increments.
\<close>

theorem incrementPower_no_steal:
  assumes "powerCounter this + 1 = 3"
  shows "incrementPower this opponent [] rnd buttons =
           (False,
            this\<lparr>powerCounter := 3, power := power this + 1\<rparr>,
            opponent\<lparr>powerCounter := 0\<rparr>,
            buttons) \<and>
         (case incrementPower this opponent [] rnd buttons of (result, this', opponent', buttons') \<Rightarrow>
            found_cells opponent' buttons' = found_cells opponent buttons)"
  using assms by (simp add: incrementPower_def Let_def found_cells_def getFoundClass_def)

theorem incrementPower_no_steal_witness:
  "powerCounter ((sample_player 1 1)\<lparr>powerCounter := 2\<rparr>) + 1 = 3 \<and>
   incrementPower ((sample_player 1 1)\<lparr>powerCounter := 2\<rparr>) (sample_player 2 100) [] 0 sample_board =
     (False,
      (sample_player 1 1)\<lparr>powerCounter := 3, power := 1\<rparr>,
      (sample_player 2 100)\<lparr>powerCounter := 0\<rparr>,
      sample_board)"
  using incrementPower_no_steal [of "(sample_player 1 1)\<lparr>powerCounter := 2\<rparr>" "sample_player 2 100" 0 sample_board]
  by (simp add: sample_player_def new_player_def)

section \<open>The range of powerCounter\<close>

lemma incrementPower_counters:
  "incrementPower a b els rnd bs = (r, a', b', bs') \<Longrightarrow>
   powerCounter a' = powerCounter a + 1 \<and> powerCounter b' = 0"
  by (auto simp: incrementPower_def Let_def split: if_splits)

lemma checkTarget_counter:
  "checkTarget p position bs target = (r, p', bs') \<Longrightarrow>
   powerCounter p' = powerCounter p \<or> powerCounter p' = 0"
  by (auto simp: checkTarget_def split: option.splits if_splits)

lemma step_counters_nonneg:
  assumes "0 \<le> powerCounter (first s)" and "0 \<le> powerCounter (second s)"
  shows "0 \<le> powerCounter (first (step s a)) \<and> 0 \<le> powerCounter (second (step s a))"
proof (cases a)
  case (IncrementPower who els rnd)
  show ?thesis
  proof (cases who)
    case True
    obtain r x y bs where e: "incrementPower (first s) (second s) els rnd (cells s) = (r, x, y, bs)"
      by (rule prod_cases4)
    from incrementPower_counters [OF e] assms IncrementPower True e show ?thesis by simp
  next
    case False
    obtain r x y bs where e: "incrementPower (second s) (first s) els rnd (cells s) = (r, x, y, bs)"
      by (rule prod_cases4)
    from incrementPower_counters [OF e] assms IncrementPower False e show ?thesis by simp
  qed
next
  case (CheckTarget who position target)
  show ?thesis
  proof (cases who)
    case True
    obtain r x bs where e: "checkTarget (first s) position (cells s) target = (r, x, bs)"
      by (rule prod_cases3)
    from checkTarget_counter [OF e] assms CheckTarget True e show ?thesis by auto
  next
    case False
    obtain r x bs where e: "checkTarget (second s) position (cells s) target = (r, x, bs)"
      by (rule prod_cases3)
    from checkTarget_counter [OF e] assms CheckTarget False e show ?thesis by auto
  qed
qed

lemma run_counters_nonneg:
  "0 \<le> powerCounter (first s) \<Longrightarrow> 0 \<le> powerCounter (second s) \<Longrightarrow>
   0 \<le> powerCounter (first (run s as)) \<and> 0 \<le> powerCounter (second (run s as))"
proof (induction as arbitrary: s)
  case Nil
  then show ?case by simp
next
  case (Cons a as)
  from step_counters_nonneg [OF Cons.prems, of a] Cons.IH [of "step s a"]
  show ?case by simp
qed

text \<open>
  Claim C9, as the code has it. Starting from two new players, whose \<open>powerCounter\<close> is 0,
  no sequence of \<open>incrementPower\<close> and \<open>checkTarget\<close> calls makes either counter
  negative; \<open>incrementPower\<close> adds exactly 1 to the acting player's counter and sets the
  opponent's to 0, and \<open>checkTarget\<close> leaves the counter as it is or sets it to 0. There
  is no upper bound: nothing resets the acting player's counter when it reaches 3.
\<close>

theorem powerCounter_invariant:
  "(case run \<lparr>first = new_player n1 i1 c1 col1 pos1, second = new_player n2 i2 c2 col2 pos2,
             cells = buttons\<rparr> actions of s \<Rightarrow>
      0 \<le> powerCounter (first s) \<and> 0 \<le> powerCounter (second s)) \<and>
   (case incrementPower this opponent els rnd bs of (r, this', opponent', bs') \<Rightarrow>
      powerCounter this' = powerCounter this + 1 \<and> powerCounter opponent' = 0) \<and>
   (case checkTarget p position bs target of (r, p', bs') \<Rightarrow>
      powerCounter p' = powerCounter p \<or> powerCounter p' = 0)"
proof -
  have "0 \<le> powerCounter (first (run \<lparr>first = new_player n1 i1 c1 col1 pos1,
            second = new_player n2 i2 c2 col2 pos2, cells = buttons\<rparr> actions)) \<and>
        0 \<le> powerCounter (second (run \<lparr>first = new_player n1 i1 c1 col1 pos1,
            second = new_player n2 i2 c2 col2 pos2, cells = buttons\<rparr> actions))"
    by (rule run_counters_nonneg) (simp_all add: new_player_def)
  moreover obtain r x y bs1 where e: "incrementPower this opponent els rnd bs = (r, x, y, bs1)"
    by (rule prod_cases4)
  moreover obtain r2 x2 bs2 where c: "checkTarget p position bs target = (r2, x2, bs2)"
    by (rule prod_cases3)
  moreover note incrementPower_counters [OF e] checkTarget_counter [OF c]
  ultimately show ?thesis by simp
qed

text \<open>
  The counter leaves 0..2: after three calls of \<open>incrementPower\<close> by the first player it
  is 3, and after a fourth it is 4.
\<close>

theorem powerCounter_range_counterexample:
  "powerCounter (first (run \<lparr>first = sample_player 1 1, second = sample_player 2 100,
      cells = sample_board\<rparr>
      [IncrementPower True [] 0, IncrementPower True [] 0, IncrementPower True [] 0])) = 3 \<and>
   \<not> (powerCounter (first (run \<lparr>first = sample_player 1 1, second = sample_player 2 100,
      cells = sample_board\<rparr>
      [IncrementPower True [] 0, IncrementPower True [] 0, IncrementPower True [] 0])) < 3)"
  by (simp add: incrementPower_def Let_def sample_player_def new_player_def)

section \<open>Properties of updateGameState\<close>

lemma update_target_frame:
  "gameRunning (update_target g room) = gameRunning g \<and>
   board_buttons (update_target g room) = board_buttons g \<and>
   (effects (update_target g room) = effects g \<or>
    effects (update_target g room) = effects g @ [UpdateTarget (room_currentTarget room)])"
  by (simp add: update_target_def)

lemma sync_player_frame:
  "gameRunning (sync_player g sp) = gameRunning g \<and> effects (sync_player g sp) = effects g \<and>
   currentTarget (sync_player g sp) = currentTarget g"
  by (simp add: sync_player_def Let_def split: option.splits prod.splits)

lemma foldl_sync_player_frame:
  "gameRunning (foldl sync_player g sps) = gameRunning g \<and>
   effects (foldl sync_player g sps) = effects g \<and>
   currentTarget (foldl sync_player g sps) = currentTarget g"
  by (induction sps arbitrary: g) (simp_all add: sync_player_frame)

lemma handle_target_found_frame:
  "gameRunning (handle_target_found g lastMove) = gameRunning g \<and>
   (effects (handle_target_found g lastMove) = effects g \<or>
    (\<exists>pid j. effects (handle_target_found g lastMove) = effects g @ [AddFoundAnimation pid j]))"
  by (simp add: handle_target_found_def Let_def split: option.splits)

lemma handle_target_found_gated:
  "\<not> confirms_target lastMove \<Longrightarrow> handle_target_found g lastMove = g"
  by (cases lastMove) (auto simp: handle_target_found_def confirms_target_def)

lemma find_Some_iff_ex: "(List.find P xs \<noteq> None) = (\<exists>x\<in>set xs. P x)"
  by (induction xs) auto

lemma find_Some_ex: "(\<exists>y. List.find P xs = Some y) = (\<exists>x\<in>set xs. P x)"
  using find_Some_iff_ex [of P xs] by auto

text \<open>Up to the end-of-game checks, nothing touches gameRunning or signals game over.\<close>

lemma before_game_over:
  "gameRunning (handle_target_found (foldl sync_player (update_target g room) sps) lastMove) =
     gameRunning g \<and>
   (\<exists>calls. effects (handle_target_found (foldl sync_player (update_target g room) sps) lastMove) =
        effects g @ calls \<and> \<not> list_ex is_game_over calls)"
proof -
  let ?g1 = "update_target g room"
  let ?g2 = "foldl sync_player ?g1 sps"
  let ?g3 = "handle_target_found ?g2 lastMove"
  have run: "gameRunning ?g3 = gameRunning g"
    using handle_target_found_frame [of ?g2 lastMove] foldl_sync_player_frame [of ?g1 sps]
      update_target_frame [of g room] by simp
  have e2: "effects ?g2 = effects ?g1"
    using foldl_sync_player_frame [of ?g1 sps] by simp
  consider (a) "effects ?g1 = effects g" | (b) "effects ?g1 = effects g @ [UpdateTarget (room_currentTarget room)]"
    using update_target_frame [of g room] by blast
  then obtain c1 where c1: "effects ?g1 = effects g @ c1" "\<not> list_ex is_game_over c1"
  proof cases
    case a
    then have "effects ?g1 = effects g @ []" "\<not> list_ex is_game_over []" by simp_all
    then show ?thesis by (rule that)
  next
    case b
    then have "effects ?g1 = effects g @ [UpdateTarget (room_currentTarget room)]"
      "\<not> list_ex is_game_over [UpdateTarget (room_currentTarget room)]" by simp_all
    then show ?thesis by (rule that)
  qed
  consider (c) "effects ?g3 = effects ?g2"
    | (d) pid j where "effects ?g3 = effects ?g2 @ [AddFoundAnimation pid j]"
    using handle_target_found_frame [of ?g2 lastMove] by blast
  then have "\<exists>calls. effects ?g3 = effects g @ calls \<and> \<not> list_ex is_game_over calls"
  proof cases
    case c
    with e2 c1 show ?thesis by auto
  next
    case d
    with e2 c1 have "effects ?g3 = effects g @ (c1 @ [AddFoundAnimation pid j]) \<and>
      \<not> list_ex is_game_over (c1 @ [AddFoundAnimation pid j])" by simp
    then show ?thesis by blast
  qed
  with run show ?thesis by simp
qed

lemma check_game_over_ends:
  assumes "room_currentTarget room > 100 \<or>
           (gameRunning g \<and> (\<exists>player\<in>set (room_players room). s_score player > 50))"
  shows "\<not> gameRunning (check_game_over g room) \<and>
         effects (check_game_over g room) = effects g @ [ShowGameOver (room_players room)]"
  using assms find_Some_ex [of "\<lambda>player. 50 < s_score player" "room_players room"]
  by (auto simp: check_game_over_def Let_def)

lemma check_game_over_idle:
  assumes "\<not> room_currentTarget room > 100"
    and "\<not> (gameRunning g \<and> (\<exists>player\<in>set (room_players room). s_score player > 50))"
  shows "check_game_over g room = g"
  using assms find_Some_ex [of "\<lambda>player. 50 < s_score player" "room_players room"]
  by (auto simp: check_game_over_def Let_def)

text \<open>
  Claim C4. When \<open>updateGameState\<close> processes a room whose \<open>currentTarget\<close> exceeds
  100, or, with the game running, a room in which some player's score exceeds 50, the game is
  finished afterwards: \<open>gameRunning\<close> is false and game over has been signalled, as the
  last call and exactly once, whichever of the two conditions holds. When neither condition
  holds, \<open>gameRunning\<close> is unchanged and game over is not signalled.
\<close>

theorem updateGameState_game_over:
  "(room_currentTarget room > 100 \<or>
    (gameRunning g \<and> (\<exists>player\<in>set (room_players room). s_score player > 50)) \<longrightarrow>
      \<not> gameRunning (updateGameState g room lastMove) \<and>
      (\<exists>calls. effects (updateGameState g room lastMove) =
                 effects g @ calls @ [ShowGameOver (room_players room)] \<and>
               \<not> list_ex is_game_over calls)) \<and>
   (\<not> room_currentTarget room > 100 \<and>
    \<not> (gameRunning g \<and> (\<exists>player\<in>set (room_players room). s_score player > 50)) \<longrightarrow>
      gameRunning (updateGameState g room lastMove) = gameRunning g \<and>
      (\<exists>calls. effects (updateGameState g room lastMove) = effects g @ calls \<and>
               \<not> list_ex is_game_over calls))"
proof -
  let ?g3 = "handle_target_found (foldl sync_player (update_target g room) (room_players room)) lastMove"
  have u: "updateGameState g room lastMove = check_game_over ?g3 room"
    by (simp add: updateGameState_def Let_def)
  from before_game_over [of g room "room_players room" lastMove]
  obtain calls where b: "gameRunning ?g3 = gameRunning g" "effects ?g3 = effects g @ calls"
    "\<not> list_ex is_game_over calls" by blast
  have first: "room_currentTarget room > 100 \<or>
    (gameRunning g \<and> (\<exists>player\<in>set (room_players room). s_score player > 50)) \<Longrightarrow>
      \<not> gameRunning (updateGameState g room lastMove) \<and>
      (\<exists>calls. effects (updateGameState g room lastMove) =
                 effects g @ calls @ [ShowGameOver (room_players room)] \<and>
               \<not> list_ex is_game_over calls)"
  proof -
    assume "room_currentTarget room > 100 \<or>
      (gameRunning g \<and> (\<exists>player\<in>set (room_players room). s_score player > 50))"
    with b(1) have "room_currentTarget room > 100 \<or>
      (gameRunning ?g3 \<and> (\<exists>player\<in>set (room_players room). s_score player > 50))" by simp
    from check_game_over_ends [OF this] u b(2,3) show ?thesis by auto
  qed
  have second: "\<not> room_currentTarget room > 100 \<Longrightarrow>
    \<not> (gameRunning g \<and> (\<exists>player\<in>set (room_players room). s_score player > 50)) \<Longrightarrow>
      gameRunning (updateGameState g room lastMove) = gameRunning g \<and>
      (\<exists>calls. effects (updateGameState g room lastMove) = effects g @ calls \<and>
               \<not> list_ex is_game_over calls)"
  proof -
    assume a: "\<not> room_currentTarget room > 100"
      "\<not> (gameRunning g \<and> (\<exists>player\<in>set (room_players room). s_score player > 50))"
    with b(1) have "\<not> (gameRunning ?g3 \<and> (\<exists>player\<in>set (room_players room). s_score player > 50))"
      by simp
    from check_game_over_idle [OF a(1) this] u b show ?thesis by auto
  qed
  from first second show ?thesis by blast
qed

theorem updateGameState_game_over_witness:
  "(room_currentTarget (sample_room 101 1) > 100 \<and>
    \<not> gameRunning (updateGameState sample_game (sample_room 101 1) (Some confirm_found))) \<and>
   (gameRunning sample_game \<and> (\<exists>player\<in>set (room_players (sample_room 5 51)). s_score player > 50) \<and>
    \<not> gameRunning (updateGameState sample_game (sample_room 5 51) (Some confirm_found))) \<and>
   (\<not> room_currentTarget (sample_room 2 1) > 100 \<and>
    \<not> (\<exists>player\<in>set (room_players (sample_room 2 1)). s_score player > 50) \<and>
    gameRunning (updateGameState sample_game (sample_room 2 1) (Some confirm_found)) =
      gameRunning sample_game)"
proof -
  have h1: "room_currentTarget (sample_room 101 1) > 100"
    by (simp add: sample_room_def)
  have h2: "gameRunning sample_game"
    by (simp add: sample_game_def)
  have h3: "\<exists>player\<in>set (room_players (sample_room 5 51)). s_score player > 50"
    by (simp add: sample_room_def)
  have h4: "\<not> room_currentTarget (sample_room 2 1) > 100"
    "\<not> (\<exists>player\<in>set (room_players (sample_room 2 1)). s_score player > 50)"
    by (simp_all add: sample_room_def)
  from h1 updateGameState_game_over [of "sample_room 101 1" sample_game "Some confirm_found"]
  have c1: "\<not> gameRunning (updateGameState sample_game (sample_room 101 1) (Some confirm_found))"
    by blast
  from h2 h3 updateGameState_game_over [of "sample_room 5 51" sample_game "Some confirm_found"]
  have c2: "\<not> gameRunning (updateGameState sample_game (sample_room 5 51) (Some confirm_found))"
    by blast
  from h4 updateGameState_game_over [of "sample_room 2 1" sample_game "Some confirm_found"]
  have c3: "gameRunning (updateGameState sample_game (sample_room 2 1) (Some confirm_found)) =
      gameRunning sample_game"
    by blast
  from h1 h2 h3 h4 c1 c2 c3 show ?thesis by blast
qed

lemma filter_removeAll_other: "\<not> P c \<Longrightarrow> filter P (removeAll c xs) = filter P xs"
  by (induction xs) auto

lemma position_class_not_found_class: "\<not> is_found_class (getPositionClass p)"
  by (simp add: is_found_class_def getPositionClass_def)

lemma found_marks_remove: "\<not> is_found_class c \<Longrightarrow> found_marks (remove c b) = found_marks b"
  by (simp add: found_marks_def remove_def filter_removeAll_other)

lemma found_marks_add: "\<not> is_found_class c \<Longrightarrow> found_marks (add c b) = found_marks b"
  by (simp add: found_marks_def add_def)

lemma clear_position_found_marks:
  "\<not> is_found_class c \<Longrightarrow> map found_marks (fst (clear_position c bs f)) = map found_marks bs"
  by (induction bs arbitrary: f) (simp_all add: case_prod_unfold Let_def found_marks_remove)

lemma set_position_found_marks:
  assumes "\<not> is_found_class c"
  shows "map found_marks (case button_at bs i of Some b \<Rightarrow> bs[nat i := add c b] | None \<Rightarrow> bs) =
         map found_marks bs"
proof (cases "button_at bs i")
  case None
  then show ?thesis by simp
next
  case (Some b)
  then have i: "nat i < length bs" and b: "b = bs ! nat i"
    by (auto simp: button_at_def split: if_splits)
  have "map found_marks (bs[nat i := add c b]) = (map found_marks bs)[nat i := found_marks (add c b)]"
    by (simp add: map_update)
  also have "\<dots> = (map found_marks bs)[nat i := map found_marks bs ! nat i]"
    using i b assms by (simp add: found_marks_add)
  also have "\<dots> = map found_marks bs"
    by (rule list_update_id)
  finally show ?thesis using Some by simp
qed

lemma updatePosition_found_marks:
  "map found_marks (snd (updatePosition p pos bs)) = map found_marks bs"
proof -
  have c: "\<not> is_found_class (getPositionClass (p\<lparr>positionIndex := pos\<rparr>))"
    by (rule position_class_not_found_class)
  show ?thesis
    using set_position_found_marks [OF c, of "fst (clear_position (getPositionClass p) bs False)" "pos - 1"]
      clear_position_found_marks [OF position_class_not_found_class, of p bs False]
    by (simp add: updatePosition_def Let_def)
qed

lemma sync_player_found_marks:
  "map found_marks (board_buttons (sync_player g sp)) = map found_marks (board_buttons g)"
proof (cases "find_index (\<lambda>p. player_id p = s_id sp) (players g)")
  case None
  then show ?thesis by (simp add: sync_player_def)
next
  case (Some i)
  show ?thesis
    using Some updatePosition_found_marks [of "players g ! i" "s_position sp" "board_buttons g"]
    by (simp add: sync_player_def Let_def case_prod_unfold)
qed

lemma foldl_sync_player_found_marks:
  "map found_marks (board_buttons (foldl sync_player g sps)) = map found_marks (board_buttons g)"
  by (induction sps arbitrary: g) (simp_all add: sync_player_found_marks)

lemma check_game_over_presentation:
  "board_buttons (check_game_over g room) = board_buttons g \<and>
   filter is_found_animation (effects (check_game_over g room)) =
     filter is_found_animation (effects g)"
  by (simp add: check_game_over_def Let_def)

lemma update_target_presentation:
  "board_buttons (update_target g room) = board_buttons g \<and>
   filter is_found_animation (effects (update_target g room)) =
     filter is_found_animation (effects g)"
  by (simp add: update_target_def)

lemma updateGameState_gated_step:
  assumes "\<not> confirms_target lastMove"
  shows "filter is_found_animation (effects (updateGameState g room lastMove)) =
           filter is_found_animation (effects g) \<and>
         map found_marks (board_buttons (updateGameState g room lastMove)) =
           map found_marks (board_buttons g)"
proof -
  let ?g1 = "update_target g room"
  let ?g2 = "foldl sync_player ?g1 (room_players room)"
  have u: "updateGameState g room lastMove = check_game_over ?g2 room"
    using assms by (simp add: updateGameState_def Let_def handle_target_found_gated)
  have "filter is_found_animation (effects (check_game_over ?g2 room)) =
          filter is_found_animation (effects g)"
    using check_game_over_presentation [of ?g2 room]
      foldl_sync_player_frame [of ?g1 "room_players room"] update_target_presentation [of g room]
    by simp
  moreover have "map found_marks (board_buttons (check_game_over ?g2 room)) =
          map found_marks (board_buttons g)"
    using check_game_over_presentation [of ?g2 room]
      foldl_sync_player_found_marks [of ?g1 "room_players room"] update_target_presentation [of g room]
    by simp
  ultimately show ?thesis using u by simp
qed

lemma updateGameStates_gated:
  "list_all (\<lambda>update. \<not> confirms_target (snd update)) later \<Longrightarrow>
   filter is_found_animation (effects (updateGameStates g later)) =
     filter is_found_animation (effects g) \<and>
   map found_marks (board_buttons (updateGameStates g later)) =
     map found_marks (board_buttons g)"
proof (induction later arbitrary: g)
  case Nil
  then show ?case by simp
next
  case (Cons update later)
  obtain room lastMove where u: "update = (room, lastMove)"
    by (cases update) auto
  from Cons.prems u have now: "\<not> confirms_target lastMove"
    and rest: "list_all (\<lambda>update. \<not> confirms_target (snd update)) later"
    by simp_all
  from updateGameState_gated_step [OF now, of g room] Cons.IH [OF rest, of "updateGameState g room lastMove"] u
  show ?case by simp
qed

lemma updateGameState_one_animation:
  "\<exists>started. filter is_found_animation (effects (updateGameState g room lastMove)) =
       filter is_found_animation (effects g) @ started \<and> length started \<le> 1"
proof -
  let ?g1 = "update_target g room"
  let ?g2 = "foldl sync_player ?g1 (room_players room)"
  let ?g3 = "handle_target_found ?g2 lastMove"
  have before: "filter is_found_animation (effects ?g2) = filter is_found_animation (effects g)"
    using foldl_sync_player_frame [of ?g1 "room_players room"] update_target_presentation [of g room]
    by simp
  have after: "filter is_found_animation (effects (updateGameState g room lastMove)) =
      filter is_found_animation (effects ?g3)"
    using check_game_over_presentation [of ?g3 room] by (simp add: updateGameState_def Let_def)
  consider (none) "effects ?g3 = effects ?g2"
    | (one) pid j where "effects ?g3 = effects ?g2 @ [AddFoundAnimation pid j]"
    using handle_target_found_frame [of ?g2 lastMove] by blast
  then show ?thesis
  proof cases
    case none
    with before after have "filter is_found_animation (effects (updateGameState g room lastMove)) =
       filter is_found_animation (effects g) @ [] \<and> length ([] :: effect list) \<le> 1" by simp
    then show ?thesis by blast
  next
    case one
    with before after have "filter is_found_animation (effects (updateGameState g room lastMove)) =
       filter is_found_animation (effects g) @ [AddFoundAnimation pid j] \<and>
       length [AddFoundAnimation pid j] \<le> 1" by simp
    then show ?thesis by blast
  qed
qed

text \<open>
  Claim C5. When \<open>updateGameState\<close> processes an update whose last move is not a confirm
  with \<open>targetFound\<close> set (a move delta, whatever its \<open>targetFound\<close>, a confirm that
  found nothing, or no last move), it starts no found animation and leaves the found markers
  of every cell as they were. So the snapshots that follow a find and repeat its target, in
  any number, do not start the animation again: after any sequence of such updates the
  animations started and the found markers are those before it. An update never starts more
  than one animation.
\<close>

theorem updateGameState_found_gated:
  "(\<not> confirms_target lastMove \<longrightarrow>
      filter is_found_animation (effects (updateGameState g room lastMove)) =
        filter is_found_animation (effects g) \<and>
      map found_marks (board_buttons (updateGameState g room lastMove)) =
        map found_marks (board_buttons g)) \<and>
   (list_all (\<lambda>update. \<not> confirms_target (snd update)) later \<longrightarrow>
      filter is_found_animation (effects (updateGameStates g later)) =
        filter is_found_animation (effects g) \<and>
      map found_marks (board_buttons (updateGameStates g later)) =
        map found_marks (board_buttons g)) \<and>
   (\<exists>started. filter is_found_animation (effects (updateGameState g room lastMove)) =
        filter is_found_animation (effects g) @ started \<and> length started \<le> 1)"
  using updateGameState_gated_step [of lastMove g room] updateGameStates_gated [of later g]
    updateGameState_one_animation [of g room lastMove]
  by blast

theorem updateGameState_found_gated_witness:
  "\<not> confirms_target (Some move_delta) \<and>
   list_all (\<lambda>update. \<not> confirms_target (snd update))
     [(sample_room 2 1, Some move_delta), (sample_room 2 1, Some confirm_missed),
      (sample_room 2 1, None)] \<and>
   filter is_found_animation
     (effects (updateGameState sample_game (sample_room 2 1) (Some confirm_found))) =
     [AddFoundAnimation ''socket-a'' 0] \<and>
   room_currentTarget (sample_room 2 1) =
     currentTarget (updateGameState sample_game (sample_room 2 1) (Some confirm_found)) \<and>
   filter is_found_animation
     (effects (updateGameState
        (updateGameState sample_game (sample_room 2 1) (Some confirm_found))
        (sample_room 2 1) (Some move_delta))) =
     [AddFoundAnimation ''socket-a'' 0] \<and>
   filter is_found_animation
     (effects (updateGameStates
        (updateGameState sample_game (sample_room 2 1) (Some confirm_found))
        [(sample_room 2 1, Some move_delta), (sample_room 2 1, Some confirm_missed),
         (sample_room 2 1, None)])) =
     [AddFoundAnimation ''socket-a'' 0]"
proof -
  let ?found = "updateGameState sample_game (sample_room 2 1) (Some confirm_found)"
  let ?later = "[(sample_room 2 1, Some move_delta), (sample_room 2 1, Some confirm_missed),
      (sample_room 2 1, None)]"
  have h1: "\<not> confirms_target (Some move_delta)"
    by (simp add: confirms_target_def move_delta_def)
  have h2: "list_all (\<lambda>update. \<not> confirms_target (snd update)) ?later"
    by (simp add: confirms_target_def move_delta_def confirm_missed_def)
  have first: "filter is_found_animation (effects ?found) = [AddFoundAnimation ''socket-a'' 0]"
    by code_simp
  have same: "room_currentTarget (sample_room 2 1) = currentTarget ?found"
    by code_simp
  from updateGameState_found_gated [of "Some move_delta" ?found "sample_room 2 1" ?later] h1 h2 first
  have "filter is_found_animation
          (effects (updateGameState ?found (sample_room 2 1) (Some move_delta))) =
          [AddFoundAnimation ''socket-a'' 0]"
    and "filter is_found_animation (effects (updateGameStates ?found ?later)) =
          [AddFoundAnimation ''socket-a'' 0]"
    by simp_all
  with h1 h2 first same show ?thesis by blast
qed

section \<open>Properties of the relay's move handler\<close>

lemma find_index_Some:
  "find_index P xs = Some i \<Longrightarrow> i < length xs \<and> P (xs ! i)"
proof (induction xs arbitrary: i)
  case Nil
  then show ?case by simp
next
  case (Cons x xs)
  then show ?case by (cases "P x") auto
qed

lemma find_in_set: "List.find P xs = Some x \<Longrightarrow> x \<in> set xs \<and> P x"
  by (induction xs) (auto split: if_splits)

lemma find_None_all: "List.find P xs = None \<Longrightarrow> \<forall>x\<in>set xs. \<not> P x"
  by (induction xs) (auto split: if_splits)

lemma move_follows_movement_rule:
  "bs \<noteq> [] \<Longrightarrow> fst (move p d (Some bs)) = movement_rule (positionIndex p) d"
  by (simp add: move_result movement_rule_def)

lemma find_None_iff_all: "(List.find P xs = None) = (\<forall>x\<in>set xs. \<not> P x)"
  by (induction xs) auto

lemma applyMove_unknown_player:
  "find_index (\<lambda>player. s_id player = pid) (room_players room) = None \<Longrightarrow>
   applyMove room pid targetPosition = (room, None)"
  by (simp add: applyMove_def)

lemma applyMove_unreachable:
  assumes "find_index (\<lambda>player. s_id player = pid) (room_players room) = Some i"
    and "\<forall>d\<in>set directions. movement_rule (s_position (room_players room ! i)) d \<noteq> targetPosition"
  shows "applyMove room pid targetPosition = (room, None)"
proof -
  from assms(2) have "List.find (\<lambda>d. movement_rule (s_position (room_players room ! i)) d = targetPosition)
      directions = None"
    by (simp add: find_None_iff_all)
  with assms(1) show ?thesis by (simp add: applyMove_def Let_def)
qed

lemma applyMove_reachable:
  assumes "find_index (\<lambda>player. s_id player = pid) (room_players room) = Some i"
    and "d \<in> set directions"
    and "movement_rule (s_position (room_players room ! i)) d = targetPosition"
  shows "applyMove room pid targetPosition =
           (room\<lparr>room_players := (room_players room)
               [i := (room_players room ! i)
                  \<lparr>s_position := movement_rule (s_position (room_players room ! i)) d\<rparr>]\<rparr>,
            Some \<lparr>move_type = ''move'', targetFound = False, move_playerId = pid\<rparr>)"
proof -
  let ?P = "\<lambda>d. movement_rule (s_position (room_players room ! i)) d = targetPosition"
  from assms(2,3) have "List.find ?P directions \<noteq> None"
    by (auto simp: find_None_iff_all)
  then obtain d' where f: "List.find ?P directions = Some d'" by auto
  from find_in_set [OF f] assms(3)
  have "movement_rule (s_position (room_players room ! i)) d' =
        movement_rule (s_position (room_players room ! i)) d" by simp
  with assms(1) f show ?thesis by (simp add: applyMove_def Let_def)
qed

text \<open>
  What \<open>applyMove\<close> can change at all: the moving player's position, by one step of
  the movement rule from the position the room held.
\<close>

lemma applyMove_bounds:
  "(case applyMove room pid targetPosition of (room', delta) \<Rightarrow>
      length (room_players room') = length (room_players room) \<and>
      (\<forall>i<length (room_players room).
         room_players room' ! i = room_players room ! i \<or>
         (s_id (room_players room ! i) = pid \<and>
          (\<exists>d\<in>set directions.
             room_players room' ! i =
               (room_players room ! i)
                 \<lparr>s_position := movement_rule (s_position (room_players room ! i)) d\<rparr>))) \<and>
      (delta = None \<longrightarrow> room' = room) \<and>
      ((\<forall>i<length (room_players room). \<forall>d\<in>set directions.
          s_id (room_players room ! i) = pid \<longrightarrow>
          movement_rule (s_position (room_players room ! i)) d \<noteq> targetPosition) \<longrightarrow>
       room' = room \<and> delta = None))"
proof (cases "find_index (\<lambda>player. s_id player = pid) (room_players room)")
  case None
  then show ?thesis by (simp add: applyMove_def)
next
  case (Some i)
  note i = find_index_Some [OF Some]
  let ?player = "room_players room ! i"
  show ?thesis
  proof (cases "List.find (\<lambda>d. movement_rule (s_position ?player) d = targetPosition) directions")
    case None
    with Some show ?thesis by (simp add: applyMove_def)
  next
    case found: (Some d)
    note d = find_in_set [OF found]
    have a: "applyMove room pid targetPosition =
        (room\<lparr>room_players := (room_players room)
            [i := ?player\<lparr>s_position := movement_rule (s_position ?player) d\<rparr>]\<rparr>,
         Some \<lparr>move_type = ''move'', targetFound = False, move_playerId = pid\<rparr>)"
      using Some found by (simp add: applyMove_def Let_def)
    let ?room' = "room\<lparr>room_players := (room_players room)
            [i := ?player\<lparr>s_position := movement_rule (s_position ?player) d\<rparr>]\<rparr>"
    have others: "\<forall>j<length (room_players room).
         room_players ?room' ! j = room_players room ! j \<or>
         (s_id (room_players room ! j) = pid \<and>
          (\<exists>d'\<in>set directions.
             room_players ?room' ! j =
               (room_players room ! j)
                 \<lparr>s_position := movement_rule (s_position (room_players room ! j)) d'\<rparr>))"
    proof (intro allI impI)
      fix j assume j: "j < length (room_players room)"
      show "room_players ?room' ! j = room_players room ! j \<or>
         (s_id (room_players room ! j) = pid \<and>
          (\<exists>d'\<in>set directions.
             room_players ?room' ! j =
               (room_players room ! j)
                 \<lparr>s_position := movement_rule (s_position (room_players room ! j)) d'\<rparr>))"
      proof (cases "j = i")
        case True
        with i d show ?thesis by auto
      next
        case False
        then show ?thesis by simp
      qed
    qed
    have reach: "\<not> (\<forall>i<length (room_players room). \<forall>d\<in>set directions.
          s_id (room_players room ! i) = pid \<longrightarrow>
          movement_rule (s_position (room_players room ! i)) d \<noteq> targetPosition)"
      using i d by blast
    show ?thesis
      unfolding a prod.case
    proof (intro conjI)
      show "length (room_players ?room') = length (room_players room)"
        by simp
    next
      from others show "\<forall>j<length (room_players room).
         room_players ?room' ! j = room_players room ! j \<or>
         (s_id (room_players room ! j) = pid \<and>
          (\<exists>d'\<in>set directions.
             room_players ?room' ! j =
               (room_players room ! j)
                 \<lparr>s_position := movement_rule (s_position (room_players room ! j)) d'\<rparr>))" .
    next
      show "Some \<lparr>move_type = ''move'', targetFound = False, move_playerId = pid\<rparr> = None \<longrightarrow>
            ?room' = room"
        by simp
    next
      from reach show "(\<forall>i<length (room_players room). \<forall>d\<in>set directions.
          s_id (room_players room ! i) = pid \<longrightarrow>
          movement_rule (s_position (room_players room ! i)) d \<noteq> targetPosition) \<longrightarrow>
        ?room' = room \<and>
        Some \<lparr>move_type = ''move'', targetFound = False, move_playerId = pid\<rparr> = None"
        by blast
    qed
  qed
qed


lemma movePlayer_emits:
  assumes "currentPlayer g = Some k" and "board_buttons g \<noteq> []"
    and "socket g" and "socketConnected g" and "k < length (players g)"
  shows "effects (movePlayer g direction) =
           effects g @ [EmitPlayerMove (roomCode g) (playerId g)
                          (movement_rule (positionIndex (players g ! k)) direction)]"
proof -
  obtain r p' bs' where m: "move (players g ! k) direction (Some (board_buttons g)) = (r, p', bs')"
    by (rule prod_cases3)
  from move_follows_movement_rule [OF assms(2), of "players g ! k" direction] m
    move_stored [of "players g ! k" direction "Some (board_buttons g)"]
  have "positionIndex p' = movement_rule (positionIndex (players g ! k)) direction" by simp
  with assms m show ?thesis by (simp add: movePlayer_def Let_def)
qed

text \<open>
  Claim C3. The position a player has in the room after \<open>applyMove\<close> is re-derived
  from the position the room held and the movement rule. For a player of the room, a
  submitted position that some direction reaches from the room's position moves the player
  there as that rule-step, and the move delta is broadcast. A submitted position that no
  direction reaches is not adopted, and for an unknown player nothing happens: the room is
  unchanged and nothing is broadcast. In every case each position in the room afterwards is
  the one the room held or, for the moving player only, a rule-step from it. The client's
  \<open>movePlayer\<close> emits the position its own \<open>move\<close> computed; when the client and
  the room agree on where the player stands and the key pressed is one of the four
  directions, \<open>applyMove\<close> on the emitted position puts the player at the movement rule
  applied to the room's position and that direction.
\<close>

theorem applyMove_rederives_position:
  "(case find_index (\<lambda>player. s_id player = pid) (room_players room) of
      None \<Rightarrow> applyMove room pid targetPosition = (room, None)
    | Some i \<Rightarrow>
        (\<forall>d\<in>set directions.
           movement_rule (s_position (room_players room ! i)) d = targetPosition \<longrightarrow>
           applyMove room pid targetPosition =
             (room\<lparr>room_players := (room_players room)
                 [i := (room_players room ! i)
                    \<lparr>s_position := movement_rule (s_position (room_players room ! i)) d\<rparr>]\<rparr>,
              Some \<lparr>move_type = ''move'', targetFound = False, move_playerId = pid\<rparr>)) \<and>
        ((\<forall>d\<in>set directions.
            movement_rule (s_position (room_players room ! i)) d \<noteq> targetPosition) \<longrightarrow>
         applyMove room pid targetPosition = (room, None))) \<and>
   (case applyMove room pid targetPosition of (room', delta) \<Rightarrow>
      length (room_players room') = length (room_players room) \<and>
      (\<forall>i<length (room_players room).
         room_players room' ! i = room_players room ! i \<or>
         (s_id (room_players room ! i) = pid \<and>
          (\<exists>d\<in>set directions.
             room_players room' ! i =
               (room_players room ! i)
                 \<lparr>s_position := movement_rule (s_position (room_players room ! i)) d\<rparr>))) \<and>
      (delta = None \<longrightarrow> room' = room) \<and>
      ((\<forall>i<length (room_players room). \<forall>d\<in>set directions.
          s_id (room_players room ! i) = pid \<longrightarrow>
          movement_rule (s_position (room_players room ! i)) d \<noteq> targetPosition) \<longrightarrow>
       room' = room \<and> delta = None)) \<and>
   (currentPlayer g = Some k \<and> k < length (players g) \<and> board_buttons g \<noteq> [] \<and>
    socket g \<and> socketConnected g \<and> playerId g = Some pid \<and>
    find_index (\<lambda>player. s_id player = pid) (room_players room) = Some j \<and>
    s_position (room_players room ! j) = positionIndex (players g ! k) \<and>
    direction \<in> set directions \<longrightarrow>
      effects (movePlayer g direction) =
        effects g @ [EmitPlayerMove (roomCode g) (Some pid)
                       (movement_rule (positionIndex (players g ! k)) direction)] \<and>
      applyMove room pid (movement_rule (positionIndex (players g ! k)) direction) =
        (room\<lparr>room_players := (room_players room)
            [j := (room_players room ! j)
               \<lparr>s_position := movement_rule (s_position (room_players room ! j)) direction\<rparr>]\<rparr>,
         Some \<lparr>move_type = ''move'', targetFound = False, move_playerId = pid\<rparr>))"
proof -
  have exact: "(case find_index (\<lambda>player. s_id player = pid) (room_players room) of
      None \<Rightarrow> applyMove room pid targetPosition = (room, None)
    | Some i \<Rightarrow>
        (\<forall>d\<in>set directions.
           movement_rule (s_position (room_players room ! i)) d = targetPosition \<longrightarrow>
           applyMove room pid targetPosition =
             (room\<lparr>room_players := (room_players room)
                 [i := (room_players room ! i)
                    \<lparr>s_position := movement_rule (s_position (room_players room ! i)) d\<rparr>]\<rparr>,
              Some \<lparr>move_type = ''move'', targetFound = False, move_playerId = pid\<rparr>)) \<and>
        ((\<forall>d\<in>set directions.
            movement_rule (s_position (room_players room ! i)) d \<noteq> targetPosition) \<longrightarrow>
         applyMove room pid targetPosition = (room, None)))"
  proof (cases "find_index (\<lambda>player. s_id player = pid) (room_players room)")
    case None
    then show ?thesis by (simp add: applyMove_unknown_player)
  next
    case (Some i)
    from applyMove_reachable [OF Some] applyMove_unreachable [OF Some]
    show ?thesis unfolding Some option.case by blast
  qed
  have client: "currentPlayer g = Some k \<and> k < length (players g) \<and> board_buttons g \<noteq> [] \<and>
    socket g \<and> socketConnected g \<and> playerId g = Some pid \<and>
    find_index (\<lambda>player. s_id player = pid) (room_players room) = Some j \<and>
    s_position (room_players room ! j) = positionIndex (players g ! k) \<and>
    direction \<in> set directions \<longrightarrow>
      effects (movePlayer g direction) =
        effects g @ [EmitPlayerMove (roomCode g) (Some pid)
                       (movement_rule (positionIndex (players g ! k)) direction)] \<and>
      applyMove room pid (movement_rule (positionIndex (players g ! k)) direction) =
        (room\<lparr>room_players := (room_players room)
            [j := (room_players room ! j)
               \<lparr>s_position := movement_rule (s_position (room_players room ! j)) direction\<rparr>]\<rparr>,
         Some \<lparr>move_type = ''move'', targetFound = False, move_playerId = pid\<rparr>)"
  proof (intro impI, elim conjE)
    assume a: "currentPlayer g = Some k" "k < length (players g)" "board_buttons g \<noteq> []"
      "socket g" "socketConnected g" "playerId g = Some pid"
      "find_index (\<lambda>player. s_id player = pid) (room_players room) = Some j"
      "s_position (room_players room ! j) = positionIndex (players g ! k)"
      "direction \<in> set directions"
    from movePlayer_emits [OF a(1,3,4,5,2), of direction] a(6)
    have e: "effects (movePlayer g direction) =
        effects g @ [EmitPlayerMove (roomCode g) (Some pid)
                       (movement_rule (positionIndex (players g ! k)) direction)]" by simp
    from a(8) have "movement_rule (s_position (room_players room ! j)) direction =
        movement_rule (positionIndex (players g ! k)) direction" by simp
    from applyMove_reachable [OF a(7) a(9) this] e
    show "effects (movePlayer g direction) =
        effects g @ [EmitPlayerMove (roomCode g) (Some pid)
                       (movement_rule (positionIndex (players g ! k)) direction)] \<and>
      applyMove room pid (movement_rule (positionIndex (players g ! k)) direction) =
        (room\<lparr>room_players := (room_players room)
            [j := (room_players room ! j)
               \<lparr>s_position := movement_rule (s_position (room_players room ! j)) direction\<rparr>]\<rparr>,
         Some \<lparr>move_type = ''move'', targetFound = False, move_playerId = pid\<rparr>)"
      by simp
  qed
  from exact applyMove_bounds [of room pid targetPosition] client show ?thesis by blast
qed

lemma sample_find_a:
  "find_index (\<lambda>player. s_id player = ''socket-a'') (room_players (sample_room 1 0)) = Some 0"
  by (simp add: sample_room_def)

lemma sample_find_z:
  "find_index (\<lambda>player. s_id player = ''socket-z'') (room_players (sample_room 1 0)) = None"
  by (simp add: sample_room_def)

lemma sample_steps: "map (movement_rule 1) directions = [90, 99, 2, 11]"
  by (simp add: directions_def movement_rule_def adjust_boundaries_def keep_in_bounds_def)

lemma sample_room_position: "s_position (room_players (sample_room 1 0) ! 0) = 1"
  by (simp add: sample_room_def)

lemma sample_game_facts:
  "currentPlayer sample_game = Some 0" "0 < length (players sample_game)"
  "board_buttons sample_game \<noteq> []" "socket sample_game" "socketConnected sample_game"
  "playerId sample_game = Some ''socket-a''" "roomCode sample_game = Some ''ROOM01''"
  "effects sample_game = []" "positionIndex (players sample_game ! 0) = 1"
  by (simp_all add: sample_game_def sample_board_nonempty sample_mplayer_def player.defs
      sample_player_def new_player_def)

theorem applyMove_rederives_position_witness:
  "applyMove (sample_room 1 0) ''socket-a'' 2 =
     ((sample_room 1 0)\<lparr>room_players := (room_players (sample_room 1 0))
         [0 := (room_players (sample_room 1 0) ! 0)\<lparr>s_position := movement_rule 1 1\<rparr>]\<rparr>,
      Some \<lparr>move_type = ''move'', targetFound = False, move_playerId = ''socket-a''\<rparr>) \<and>
   movement_rule 1 1 = 2 \<and>
   map (movement_rule 1) directions = [90, 99, 2, 11] \<and>
   applyMove (sample_room 1 0) ''socket-a'' 57 = (sample_room 1 0, None) \<and>
   applyMove (sample_room 1 0) ''socket-z'' 2 = (sample_room 1 0, None) \<and>
   effects (movePlayer sample_game (- 10)) =
     [EmitPlayerMove (Some ''ROOM01'') (Some ''socket-a'') 90] \<and>
   applyMove (sample_room 1 0) ''socket-a'' 90 =
     ((sample_room 1 0)\<lparr>room_players := (room_players (sample_room 1 0))
         [0 := (room_players (sample_room 1 0) ! 0)\<lparr>s_position := 90\<rparr>]\<rparr>,
      Some \<lparr>move_type = ''move'', targetFound = False, move_playerId = ''socket-a''\<rparr>)"
proof -
  have r: "movement_rule 1 1 = 2" "movement_rule 1 (- 10) = 90"
    by (simp_all add: movement_rule_def adjust_boundaries_def keep_in_bounds_def)
  have d: "1 \<in> set directions" "- 10 \<in> set directions"
    by (simp_all add: directions_def)
  have far: "\<forall>d\<in>set directions. movement_rule 1 d \<noteq> 57"
    by (simp add: directions_def movement_rule_def adjust_boundaries_def keep_in_bounds_def)
  note t = applyMove_rederives_position
  have exact: "(\<forall>d\<in>set directions.
           movement_rule 1 d = targetPosition \<longrightarrow>
           applyMove (sample_room 1 0) ''socket-a'' targetPosition =
             ((sample_room 1 0)\<lparr>room_players := (room_players (sample_room 1 0))
                 [0 := (room_players (sample_room 1 0) ! 0)\<lparr>s_position := movement_rule 1 d\<rparr>]\<rparr>,
              Some \<lparr>move_type = ''move'', targetFound = False, move_playerId = ''socket-a''\<rparr>)) \<and>
        ((\<forall>d\<in>set directions. movement_rule 1 d \<noteq> targetPosition) \<longrightarrow>
         applyMove (sample_room 1 0) ''socket-a'' targetPosition = (sample_room 1 0, None))"
    for targetPosition
    using t [where room = "sample_room 1 0" and pid = "''socket-a''"
        and targetPosition = targetPosition, THEN conjunct1]
    by (simp only: sample_find_a option.case sample_room_position)
  from exact [of 2, THEN conjunct1, THEN bspec, OF d(1), THEN mp, OF r(1)]
  have accepted: "applyMove (sample_room 1 0) ''socket-a'' 2 =
     ((sample_room 1 0)\<lparr>room_players := (room_players (sample_room 1 0))
         [0 := (room_players (sample_room 1 0) ! 0)\<lparr>s_position := movement_rule 1 1\<rparr>]\<rparr>,
      Some \<lparr>move_type = ''move'', targetFound = False, move_playerId = ''socket-a''\<rparr>)" .
  from exact [of 57, THEN conjunct2, THEN mp, OF far]
  have rejected: "applyMove (sample_room 1 0) ''socket-a'' 57 = (sample_room 1 0, None)" .
  have unknown: "applyMove (sample_room 1 0) ''socket-z'' 2 = (sample_room 1 0, None)"
    using t [where room = "sample_room 1 0" and pid = "''socket-z''" and targetPosition = 2,
        THEN conjunct1]
    by (simp only: sample_find_z option.case)
  have agree: "currentPlayer sample_game = Some 0 \<and> 0 < length (players sample_game) \<and>
      board_buttons sample_game \<noteq> [] \<and> socket sample_game \<and> socketConnected sample_game \<and>
      playerId sample_game = Some ''socket-a'' \<and>
      find_index (\<lambda>player. s_id player = ''socket-a'') (room_players (sample_room 1 0)) = Some 0 \<and>
      s_position (room_players (sample_room 1 0) ! 0) = positionIndex (players sample_game ! 0) \<and>
      - 10 \<in> set directions"
    using sample_game_facts sample_find_a sample_room_position d(2) by simp
  from t [where room = "sample_room 1 0" and pid = "''socket-a''" and g = sample_game
      and k = 0 and j = 0 and direction = "- 10", THEN conjunct2, THEN conjunct2, THEN mp, OF agree]
  have client: "effects (movePlayer sample_game (- 10)) =
        effects sample_game @ [EmitPlayerMove (roomCode sample_game) (Some ''socket-a'')
                       (movement_rule (positionIndex (players sample_game ! 0)) (- 10))] \<and>
      applyMove (sample_room 1 0) ''socket-a''
          (movement_rule (positionIndex (players sample_game ! 0)) (- 10)) =
        ((sample_room 1 0)\<lparr>room_players := (room_players (sample_room 1 0))
            [0 := (room_players (sample_room 1 0) ! 0)
               \<lparr>s_position := movement_rule (s_position (room_players (sample_room 1 0) ! 0)) (- 10)\<rparr>]\<rparr>,
         Some \<lparr>move_type = ''move'', targetFound = False, move_playerId = ''socket-a''\<rparr>)" .
  from client have emitted: "effects (movePlayer sample_game (- 10)) =
      [EmitPlayerMove (Some ''ROOM01'') (Some ''socket-a'') 90]"
    and applied: "applyMove (sample_room 1 0) ''socket-a'' 90 =
     ((sample_room 1 0)\<lparr>room_players := (room_players (sample_room 1 0))
         [0 := (room_players (sample_room 1 0) ! 0)\<lparr>s_position := 90\<rparr>]\<rparr>,
      Some \<lparr>move_type = ''move'', targetFound = False, move_playerId = ''socket-a''\<rparr>)"
    by (simp_all only: sample_game_facts sample_room_position r append_Nil)
  from accepted r(1) sample_steps rejected unknown emitted applied show ?thesis
    by (intro conjI)
qed

end
